theory Spec2Isabelle
  imports Complex_Main
begin

section \<open>Rounding to binary64\<close>

text \<open>
  The service computes on the TypeScript type \<^verbatim>\<open>number\<close>, the binary64 format of
  IEEE 754. Every arithmetic operation returns the exact result rounded to the nearest
  value of the format, a tie going to the value with the even significand; a rounded
  result of magnitude \<open>2 ^ 1024\<close> or more is an infinity, and below \<open>2 ^ -1022\<close> the
  spacing of the values stays at \<open>2 ^ -1074\<close> (gradual underflow).

  \<open>rne\<close> rounds to the nearest integer, ties to even. \<open>exponent x\<close> is the binary
  exponent of \<open>x\<close>, not below \<open>-1022\<close>, and \<open>ulp x\<close> the spacing of the format at \<open>x\<close>;
  \<open>rnd x\<close> is the multiple of \<open>ulp x\<close> nearest to \<open>x\<close>.
\<close>

definition rne :: "real \<Rightarrow> int" where
  "rne y = (if y - of_int \<lfloor>y\<rfloor> = 1 / 2 then (if even \<lfloor>y\<rfloor> then \<lfloor>y\<rfloor> else \<lfloor>y\<rfloor> + 1) else round y)"

definition exponent :: "real \<Rightarrow> int" where
  "exponent x = max (- 1022) \<lfloor>log 2 \<bar>x\<bar>\<rfloor>"

definition ulp :: "real \<Rightarrow> real" where
  "ulp x = 2 powr of_int (exponent x - 52)"

definition rnd :: "real \<Rightarrow> real" where
  "rnd x = of_int (rne (x / ulp x)) * ulp x"

section \<open>The number type\<close>

text \<open>
  A number is a finite value, an infinity or \<open>NaN\<close>. The two zeros are one value, as
  they are for \<^verbatim>\<open>===\<close> and for every comparison; the only divisors of the service are
  \<open>lambda + 2\<close>, \<open>6\<close>, \<open>8\<close> and \<open>100\<close>, and a sum that cancels is the positive zero, so
  no division of the service is by the negative zero.

  \<open>fl x\<close> is the number that an operation with the exact result \<open>x\<close> returns, and the
  number that a decimal literal \<open>x\<close> of the source denotes. \<open>binary64 x\<close> says that \<open>x\<close>
  is a finite value of the format.
\<close>

datatype number = Fin real | PosInfinity | NegInfinity | NaN

definition overflow :: "real \<Rightarrow> number" where
  "overflow v =
     (if 2 ^ 1024 \<le> v then PosInfinity else if v \<le> - (2 ^ 1024) then NegInfinity else Fin v)"

definition fl :: "real \<Rightarrow> number" where
  "fl x = overflow (rnd x)"


instantiation number :: "{plus, minus, times, inverse}"
begin

text \<open>\<^verbatim>\<open>x + y\<close>: the infinities of opposite sign have no sum.\<close>

fun plus_number :: "number \<Rightarrow> number \<Rightarrow> number" where
  "plus_number NaN y = NaN"
| "plus_number x NaN = NaN"
| "plus_number (Fin a) (Fin b) = fl (a + b)"
| "plus_number PosInfinity NegInfinity = NaN"
| "plus_number NegInfinity PosInfinity = NaN"
| "plus_number PosInfinity y = PosInfinity"
| "plus_number x PosInfinity = PosInfinity"
| "plus_number NegInfinity y = NegInfinity"
| "plus_number x NegInfinity = NegInfinity"

text \<open>\<^verbatim>\<open>x - y\<close>: an infinity minus itself is not a number.\<close>

fun minus_number :: "number \<Rightarrow> number \<Rightarrow> number" where
  "minus_number NaN y = NaN"
| "minus_number x NaN = NaN"
| "minus_number (Fin a) (Fin b) = fl (a - b)"
| "minus_number PosInfinity PosInfinity = NaN"
| "minus_number NegInfinity NegInfinity = NaN"
| "minus_number PosInfinity y = PosInfinity"
| "minus_number NegInfinity y = NegInfinity"
| "minus_number x PosInfinity = NegInfinity"
| "minus_number x NegInfinity = PosInfinity"

text \<open>\<^verbatim>\<open>x * y\<close>: zero times an infinity is not a number.\<close>

fun times_number :: "number \<Rightarrow> number \<Rightarrow> number" where
  "times_number NaN y = NaN"
| "times_number x NaN = NaN"
| "times_number (Fin a) (Fin b) = fl (a * b)"
| "times_number (Fin a) PosInfinity =
     (if a = 0 then NaN else if 0 < a then PosInfinity else NegInfinity)"
| "times_number (Fin a) NegInfinity =
     (if a = 0 then NaN else if 0 < a then NegInfinity else PosInfinity)"
| "times_number PosInfinity (Fin b) =
     (if b = 0 then NaN else if 0 < b then PosInfinity else NegInfinity)"
| "times_number NegInfinity (Fin b) =
     (if b = 0 then NaN else if 0 < b then NegInfinity else PosInfinity)"
| "times_number PosInfinity PosInfinity = PosInfinity"
| "times_number PosInfinity NegInfinity = NegInfinity"
| "times_number NegInfinity PosInfinity = NegInfinity"
| "times_number NegInfinity NegInfinity = PosInfinity"

text \<open>
  \<^verbatim>\<open>x / y\<close>: no division throws. A finite value divided by zero is an infinity of its
  sign, and \<open>0 / 0\<close> is not a number.
\<close>

fun divide_number :: "number \<Rightarrow> number \<Rightarrow> number" where
  "divide_number NaN y = NaN"
| "divide_number x NaN = NaN"
| "divide_number (Fin a) (Fin b) =
     (if b = 0 then (if a = 0 then NaN else if 0 < a then PosInfinity else NegInfinity)
      else fl (a / b))"
| "divide_number (Fin a) PosInfinity = Fin 0"
| "divide_number (Fin a) NegInfinity = Fin 0"
| "divide_number PosInfinity (Fin b) = (if 0 \<le> b then PosInfinity else NegInfinity)"
| "divide_number NegInfinity (Fin b) = (if 0 \<le> b then NegInfinity else PosInfinity)"
| "divide_number x y = NaN"

text \<open>The reciprocal \<^verbatim>\<open>1 / x\<close>, which the type class asks for; the service does not use it.\<close>

fun inverse_number :: "number \<Rightarrow> number" where
  "inverse_number (Fin b) = (if b = 0 then PosInfinity else fl (1 / b))"
| "inverse_number PosInfinity = Fin 0"
| "inverse_number NegInfinity = Fin 0"
| "inverse_number NaN = NaN"

instance ..

end

text \<open>
  \<^verbatim>\<open>Math.round(x)\<close>: the integer closest to \<open>x\<close>, and of two equally close integers the
  one closer to plus infinity, which is \<open>\<lfloor>x + 1/2\<rfloor>\<close>, the \<^const>\<open>round\<close> of the library.
  The result is exact: an integer next to a value of the format is in the format. The
  special values are returned as they are.
\<close>

fun Math_round :: "number \<Rightarrow> number" where
  "Math_round (Fin x) = Fin (of_int (round x))"
| "Math_round x = x"

text \<open>The comparisons \<^verbatim>\<open>x <= y\<close> and \<^verbatim>\<open>x < y\<close>: false whenever an operand is \<open>NaN\<close>.\<close>

fun number_le :: "number \<Rightarrow> number \<Rightarrow> bool" where
  "number_le NaN y = False"
| "number_le x NaN = False"
| "number_le (Fin a) (Fin b) = (a \<le> b)"
| "number_le NegInfinity y = True"
| "number_le x PosInfinity = True"
| "number_le x y = False"

fun number_less :: "number \<Rightarrow> number \<Rightarrow> bool" where
  "number_less NaN y = False"
| "number_less x NaN = False"
| "number_less (Fin a) (Fin b) = (a < b)"
| "number_less PosInfinity y = False"
| "number_less x NegInfinity = False"
| "number_less x y = True"

section \<open>The data of the service\<close>

datatype Unidade = horas | dias

text \<open>The element type \<^verbatim>\<open>80 | 85 | 90 | 95\<close> of \<^verbatim>\<open>percentis\<close>, and the keys of \<^verbatim>\<open>Z_SCORES\<close>.\<close>

datatype percentil = Pc80 | Pc85 | Pc90 | Pc95

text \<open>
  \<^verbatim>\<open>PertInput\<close>. The fields \<^verbatim>\<open>O\<close>, \<^verbatim>\<open>M\<close> and \<^verbatim>\<open>P\<close> are \<open>input_O\<close>, \<open>input_M\<close> and \<open>input_P\<close>
  here (\<open>O\<close> is the composition of relations); the optional \<^verbatim>\<open>lambda\<close> is \<open>None\<close> when it
  is undefined.
\<close>

record PertInput =
  input_O :: number
  input_M :: number
  input_P :: number
  unidade :: Unidade
  lambda :: "number option"
  percentis :: "percentil list"

text \<open>
  \<^verbatim>\<open>PertResult\<close> and its \<^verbatim>\<open>valores\<close>, where \<open>None\<close> is \<^verbatim>\<open>undefined\<close>. The field
  \<^verbatim>\<open>sigma\<close> of the result is \<open>sigma_field\<close> here: \<open>sigma\<close> is the function below.
\<close>

record Valores =
  P80 :: "number option"
  P85 :: "number option"
  P90 :: "number option"
  P95 :: "number option"

record PertResult =
  media :: number
  sigma_field :: number
  valores :: Valores

section \<open>The functions of the service\<close>

text \<open>\<^verbatim>\<open>Z_SCORES\<close>: each decimal literal is the value of the format nearest to it.\<close>

fun Z_SCORES :: "percentil \<Rightarrow> number" where
  "Z_SCORES Pc80 = fl 0.8416"
| "Z_SCORES Pc85 = fl 1.036"
| "Z_SCORES Pc90 = fl 1.2816"
| "Z_SCORES Pc95 = fl 1.6449"

text \<open>\<^verbatim>\<open>meanPert(O, M, P, lambda = 4)\<close>: the default stands in for an undefined argument.\<close>

definition meanPert :: "number \<Rightarrow> number \<Rightarrow> number \<Rightarrow> number option \<Rightarrow> number" where
  "meanPert Ov M P lambda_arg =
     (let lam = (case lambda_arg of None \<Rightarrow> Fin 4 | Some l \<Rightarrow> l)
      in (Ov + lam * M + P) / (lam + Fin 2))"

definition sigma :: "number \<Rightarrow> number \<Rightarrow> number" where
  "sigma Ov P = (P - Ov) / Fin 6"

definition percentile :: "number \<Rightarrow> number \<Rightarrow> percentil \<Rightarrow> number" where
  "percentile mean sg p = mean + Z_SCORES p * sg"

definition round2 :: "number \<Rightarrow> number" where
  "round2 n = Math_round (n * Fin 100) / Fin 100"

text \<open>
  \<^verbatim>\<open>calculate(input)\<close>. \<^verbatim>\<open>percentis.includes(80)\<close> is membership in the list; the
  percentiles are computed from the mean and the deviation before these are rounded.
\<close>

definition calculate :: "PertInput \<Rightarrow> PertResult" where
  "calculate input =
     (let lam = (case lambda input of None \<Rightarrow> Fin 4 | Some l \<Rightarrow> l);
          mediaValue = meanPert (input_O input) (input_M input) (input_P input) (Some lam);
          sigmaValue = sigma (input_O input) (input_P input);
          vals = \<lparr>
            P80 = (if Pc80 \<in> set (percentis input)
                   then Some (round2 (percentile mediaValue sigmaValue Pc80)) else None),
            P85 = (if Pc85 \<in> set (percentis input)
                   then Some (round2 (percentile mediaValue sigmaValue Pc85)) else None),
            P90 = (if Pc90 \<in> set (percentis input)
                   then Some (round2 (percentile mediaValue sigmaValue Pc90)) else None),
            P95 = (if Pc95 \<in> set (percentis input)
                   then Some (round2 (percentile mediaValue sigmaValue Pc95)) else None) \<rparr>
      in \<lparr> media = round2 mediaValue, sigma_field = round2 sigmaValue, valores = vals \<rparr>)"

definition horasParaDias :: "number \<Rightarrow> number" where
  "horasParaDias h = round2 (h / Fin 8)"

definition diasParaHoras :: "number \<Rightarrow> number" where
  "diasParaHoras d = round2 (d * Fin 8)"

section \<open>Reference definitions\<close>


text \<open>The input of the specification's scenarios: \<open>O = 2\<close>, \<open>M = 4\<close>, \<open>P = 10\<close>, P90 asked.\<close>

definition scenario :: PertInput where
  "scenario = \<lparr> input_O = Fin 2, input_M = Fin 4, input_P = Fin 10, unidade = horas,
                 lambda = Some (Fin 4), percentis = [Pc90] \<rparr>"

section \<open>Properties of the rounding\<close>

lemma rne_of_int: "rne (of_int n) = n"
  by (simp add: rne_def)

lemma rne_floor: "\<lfloor>y\<rfloor> \<le> rne y" "rne y \<le> \<lfloor>y\<rfloor> + 1"
  unfolding rne_def round_def by (auto intro: floor_mono) linarith+

lemma rne_error: "\<bar>of_int (rne y) - y\<bar> \<le> 1 / 2"
proof (cases "y - of_int \<lfloor>y\<rfloor> = 1 / 2")
  case True
  then show ?thesis by (auto simp: rne_def) 
next
  case False
  then show ?thesis using of_int_round_abs_le [of y] by (simp add: rne_def)
qed

lemma rne_mono: assumes "y \<le> z" shows "rne y \<le> rne z"
proof (cases "\<lfloor>y\<rfloor> = \<lfloor>z\<rfloor>")
  case False
  with assms have "\<lfloor>y\<rfloor> < \<lfloor>z\<rfloor>" using floor_mono [of y z] by simp
  then have "\<lfloor>y\<rfloor> + 1 \<le> \<lfloor>z\<rfloor>" by simp
  with rne_floor(2) [of y] rne_floor(1) [of z] show ?thesis by linarith
next
  case True
  show ?thesis
  proof (cases "y = z")
    case True then show ?thesis by simp
  next
    case False
    with assms have lt: "y < z" by simp
    show ?thesis
    proof (cases "rne y = \<lfloor>y\<rfloor>")
      case True
      with rne_floor(1) [of z] \<open>\<lfloor>y\<rfloor> = \<lfloor>z\<rfloor>\<close> show ?thesis by simp
    next
      case f: False
      have "1 / 2 \<le> y - of_int \<lfloor>y\<rfloor>"
      proof (rule ccontr)
        assume "\<not> 1 / 2 \<le> y - of_int \<lfloor>y\<rfloor>"
        then have "y + 1 / 2 < of_int \<lfloor>y\<rfloor> + 1" by simp
        then have "\<lfloor>y + 1 / 2\<rfloor> = \<lfloor>y\<rfloor>"
          using of_int_floor_le [of y] by (intro floor_unique) linarith+
        with \<open>\<not> 1 / 2 \<le> y - of_int \<lfloor>y\<rfloor>\<close> have "rne y = \<lfloor>y\<rfloor>" by (simp add: rne_def round_def)
        with f show False by simp
      qed
      with lt True have z: "1 / 2 < z - of_int \<lfloor>z\<rfloor>" by simp
      then have "of_int (\<lfloor>z\<rfloor> + 1) \<le> z + 1 / 2" "z + 1 / 2 < of_int (\<lfloor>z\<rfloor> + 1) + 1"
        by linarith+
      then have "\<lfloor>z + 1 / 2\<rfloor> = \<lfloor>z\<rfloor> + 1" by (rule floor_unique)
      with z have "rne z = \<lfloor>z\<rfloor> + 1" by (simp add: rne_def round_def)
      with rne_floor(2) [of y] True show ?thesis by simp
    qed
  qed
qed

lemma rne_minus: "rne (- y) = - rne y"
proof (cases "y - of_int \<lfloor>y\<rfloor> = 1 / 2")
  case True
  then have f: "\<lfloor>- y\<rfloor> = - \<lfloor>y\<rfloor> - 1" by linarith
  with True have t: "- y - of_int \<lfloor>- y\<rfloor> = 1 / 2" by simp
  show ?thesis
    using True t by (simp add: rne_def f)
next
  case False
  have nt: "z - of_int \<lfloor>z\<rfloor> \<noteq> 1 / 2" if "\<forall>k::int. z + 1 / 2 \<noteq> of_int k" for z :: real
  proof
    assume "z - of_int \<lfloor>z\<rfloor> = 1 / 2"
    then have "z + 1 / 2 = of_int (\<lfloor>z\<rfloor> + 1)" by simp
    with that show False by blast
  qed
  have a: "\<forall>k::int. y + 1 / 2 \<noteq> of_int k"
  proof (intro allI notI)
    fix k :: int assume k: "y + 1 / 2 = of_int k"
    then have "\<lfloor>y\<rfloor> = k - 1" by (intro floor_unique) simp_all
    with k False show False by simp
  qed
  have b: "\<forall>k::int. - y + 1 / 2 \<noteq> of_int k"
  proof (intro allI notI)
    fix k :: int assume "- y + 1 / 2 = of_int k"
    then have "y + 1 / 2 = of_int (1 - k)" by simp
    with a show False by blast
  qed
  define k where "k = \<lfloor>y + 1 / 2\<rfloor>"
  have "of_int k \<noteq> y + 1 / 2" using a by metis
  moreover have "of_int k \<le> y + 1 / 2" "y + 1 / 2 < of_int k + 1"
    unfolding k_def by linarith+
  ultimately have "of_int (- k) \<le> - y + 1 / 2" "- y + 1 / 2 < of_int (- k) + 1"
    by simp_all
  then have "\<lfloor>- y + 1 / 2\<rfloor> = - k" by (rule floor_unique)
  then have "\<lfloor>- y + 1 / 2\<rfloor> = - \<lfloor>y + 1 / 2\<rfloor>" by (simp add: k_def)
  with False nt [OF b] show ?thesis by (simp add: rne_def round_def)
qed

lemma ulp_pos: "0 < ulp x"
  by (simp add: ulp_def)

lemma ulp_minus: "ulp (- x) = ulp x"
  by (simp add: ulp_def exponent_def)

lemma rnd_minus: "rnd (- x) = - rnd x"
  by (simp add: rnd_def ulp_minus rne_minus)

lemma rnd_0: "rnd 0 = 0"
  by (simp add: rnd_def rne_def)

lemma exponent_mono: "0 < x \<Longrightarrow> x \<le> y \<Longrightarrow> exponent x \<le> exponent y"
  unfolding exponent_def by (intro max.mono order_refl floor_mono) simp

lemma ulp_upper: assumes "x \<noteq> 0" shows "\<bar>x\<bar> < 2 ^ 53 * ulp x"
proof -
  have "log 2 \<bar>x\<bar> < of_int (\<lfloor>log 2 \<bar>x\<bar>\<rfloor> + 1)" by linarith
  also have "\<dots> \<le> of_int (exponent x + 1)" unfolding exponent_def by simp
  finally have "\<bar>x\<bar> < 2 powr of_int (exponent x + 1)"
    using assms by (simp add: log_less_iff)
  also have "(2::real) powr of_int (exponent x + 1) = 2 powr 53 * 2 powr of_int (exponent x - 52)"
    unfolding powr_add [symmetric] by (simp add: algebra_simps)
  finally show ?thesis by (simp add: ulp_def)
qed

lemma ulp_lower: assumes "1 / 2 ^ 1022 \<le> \<bar>x\<bar>" shows "2 ^ 52 * ulp x \<le> \<bar>x\<bar>"
proof -
  have "(0::real) < 1 / 2 ^ 1022" by simp
  with assms have pos: "0 < \<bar>x\<bar>" by linarith
  have "(2::real) powr (- 1022) \<le> \<bar>x\<bar>" using assms by (simp add: powr_neg_numeral)
  then have "- 1022 \<le> log 2 \<bar>x\<bar>" using pos by (simp add: le_log_iff)
  then have "- 1022 \<le> \<lfloor>log 2 \<bar>x\<bar>\<rfloor>" by linarith
  then have e: "exponent x = \<lfloor>log 2 \<bar>x\<bar>\<rfloor>" by (simp add: exponent_def)
  have "of_int (exponent x) \<le> log 2 \<bar>x\<bar>" unfolding e by linarith
  then have "2 powr of_int (exponent x) \<le> \<bar>x\<bar>" using pos by (simp add: le_log_iff)
  moreover have "(2::real) powr of_int (exponent x) = 2 powr 52 * 2 powr of_int (exponent x - 52)"
    unfolding powr_add [symmetric] by simp
  ultimately show ?thesis by (simp add: ulp_def)
qed

lemma ulp_subnormal: assumes "\<bar>x\<bar> < 1 / 2 ^ 1022" "x \<noteq> 0" shows "ulp x = 1 / 2 ^ 1074"
proof -
  have "\<bar>x\<bar> < 2 powr (- 1022)" using assms by (simp add: powr_neg_numeral)
  then have "log 2 \<bar>x\<bar> < - 1022" using assms(2) by (simp add: log_less_iff)
  then have "\<lfloor>log 2 \<bar>x\<bar>\<rfloor> \<le> - 1022" by linarith
  then have "exponent x = - 1022" by (simp add: exponent_def)
  then show ?thesis by (simp add: ulp_def powr_neg_numeral)
qed

lemma ulp_ge: "1 / 2 ^ 1074 \<le> ulp x"
proof -
  have "- 1074 \<le> exponent x - 52" by (simp add: exponent_def)
  then have "(2::real) powr (- 1074) \<le> 2 powr of_int (exponent x - 52)"
    by (intro powr_mono) simp_all
  then show ?thesis by (simp add: ulp_def powr_neg_numeral)
qed

lemma rnd_error: "\<bar>rnd x - x\<bar> \<le> ulp x / 2"
proof -
  have "rnd x - x = (of_int (rne (x / ulp x)) - x / ulp x) * ulp x"
    using ulp_pos [of x] by (simp add: rnd_def field_simps)
  then have "\<bar>rnd x - x\<bar> = \<bar>of_int (rne (x / ulp x)) - x / ulp x\<bar> * ulp x"
    using ulp_pos [of x] by (simp add: abs_mult)
  also have "\<dots> \<le> 1 / 2 * ulp x"
    using rne_error [of "x / ulp x"] ulp_pos [of x] by (intro mult_right_mono) simp_all
  finally show ?thesis by simp
qed

lemma rnd_error_normal:
  assumes "1 / 2 ^ 1022 \<le> \<bar>x\<bar>"
  shows "\<bar>rnd x - x\<bar> \<le> \<bar>x\<bar> / 2 ^ 53"
  using rnd_error [of x] ulp_lower [OF assms] by simp

lemma rnd_error_general: "\<bar>rnd x - x\<bar> \<le> \<bar>x\<bar> / 2 ^ 53 + 1 / 2 ^ 1075"
proof (cases "1 / 2 ^ 1022 \<le> \<bar>x\<bar>")
  case True
  from rnd_error_normal [OF this] show ?thesis by simp
next
  case False
  show ?thesis
  proof (cases "x = 0")
    case True then show ?thesis by (simp add: rnd_0)
  next
    case nz: False
    with False have "ulp x = 1 / 2 ^ 1074" by (intro ulp_subnormal) simp_all
    with rnd_error [of x] have "\<bar>rnd x - x\<bar> \<le> 1 / 2 ^ 1075" by simp
    moreover have "0 \<le> \<bar>x\<bar> / 2 ^ 53" by simp
    ultimately show ?thesis by linarith
  qed
qed

lemma rnd_range_pos:
  assumes "0 < x"
  shows "0 \<le> rnd x" and "rnd x \<le> 2 ^ 53 * ulp x"
proof -
  have "rne 0 \<le> rne (x / ulp x)" using assms ulp_pos [of x] by (intro rne_mono) simp
  then have "0 \<le> rne (x / ulp x)" using rne_of_int [of 0] by simp
  then show "0 \<le> rnd x" using ulp_pos [of x] by (simp add: rnd_def)
  have "x / ulp x \<le> of_int (2 ^ 53)"
    using ulp_upper [of x] assms ulp_pos [of x] by (simp add: field_simps)
  then have "rne (x / ulp x) \<le> rne (of_int (2 ^ 53))" by (rule rne_mono)
  then have "rne (x / ulp x) \<le> 2 ^ 53" by (simp only: rne_of_int)
  then have "of_int (rne (x / ulp x)) \<le> (2 ^ 53 :: real)"
    by (metis of_int_le_iff of_int_numeral of_int_power)
  then show "rnd x \<le> 2 ^ 53 * ulp x"
    unfolding rnd_def using ulp_pos [of x] by (intro mult_right_mono) simp_all
qed

lemma rnd_range_normal:
  assumes "0 < x" and "1 / 2 ^ 1022 \<le> x"
  shows "2 ^ 52 * ulp x \<le> rnd x"
proof -
  have "of_int (2 ^ 52) \<le> x / ulp x"
    using ulp_lower [of x] assms ulp_pos [of x] by (simp add: field_simps)
  then have "rne (of_int (2 ^ 52)) \<le> rne (x / ulp x)" by (rule rne_mono)
  then have "2 ^ 52 \<le> rne (x / ulp x)" by (simp only: rne_of_int)
  then have "(2 ^ 52 :: real) \<le> of_int (rne (x / ulp x))"
    by (metis of_int_le_iff of_int_numeral of_int_power)
  then show ?thesis
    unfolding rnd_def using ulp_pos [of x] by (intro mult_right_mono) simp_all
qed

lemma exponent_normal:
  assumes "- 1022 < exponent x" and "x \<noteq> 0"
  shows "1 / 2 ^ 1022 \<le> \<bar>x\<bar>"
proof -
  from assms have e: "- 1022 < \<lfloor>log 2 \<bar>x\<bar>\<rfloor>" unfolding exponent_def by linarith
  then have l: "- 1022 < log 2 \<bar>x\<bar>" by linarith
  with assms(2) have "2 powr (- 1022) < \<bar>x\<bar>" by (simp add: less_log_iff)
  then show ?thesis by (simp add: powr_neg_numeral)
qed

lemma ulp_step:
  assumes "exponent x < exponent y"
  shows "2 ^ 53 * ulp x \<le> 2 ^ 52 * ulp y"
proof -
  have "(2::real) powr 53 * 2 powr of_int (exponent x - 52) \<le> 2 powr 52 * 2 powr of_int (exponent y - 52)"
    unfolding powr_add [symmetric] using assms by (intro powr_mono) simp_all
  then show ?thesis by (simp add: ulp_def)
qed

lemma rnd_mono_pos:
  assumes "0 < x" and "x \<le> y"
  shows "rnd x \<le> rnd y"
proof (cases "exponent x = exponent y")
  case True
  then have u: "ulp x = ulp y" by (simp add: ulp_def)
  have "rne (x / ulp y) \<le> rne (y / ulp y)"
    using assms ulp_pos [of y] by (intro rne_mono divide_right_mono) simp_all
  then show ?thesis unfolding rnd_def u using ulp_pos [of y] by (intro mult_right_mono) simp_all
next
  case False
  with exponent_mono [OF assms] have lt: "exponent x < exponent y" by simp
  then have "- 1022 < exponent y" by (simp add: exponent_def)
  from exponent_normal [OF this] assms have "1 / 2 ^ 1022 \<le> y" by simp
  with assms have "2 ^ 52 * ulp y \<le> rnd y" by (intro rnd_range_normal) simp_all
  with rnd_range_pos(2) [OF assms(1)] ulp_step [OF lt] show ?thesis by linarith
qed

lemma rnd_nonneg: "0 \<le> x \<Longrightarrow> 0 \<le> rnd x"
  by (cases "x = 0") (simp_all add: rnd_0 rnd_range_pos)

lemma rnd_nonpos: "x \<le> 0 \<Longrightarrow> rnd x \<le> 0"
  using rnd_nonneg [of "- x"] by (simp add: rnd_minus)

lemma rnd_mono:
  assumes "x \<le> y"
  shows "rnd x \<le> rnd y"
proof -
  consider "0 < x" | "y < 0" | "x \<le> 0" "0 \<le> y" by linarith
  then show ?thesis
  proof cases
    case 1
    then show ?thesis using assms by (rule rnd_mono_pos)
  next
    case 2
    then have "rnd (- y) \<le> rnd (- x)" using assms by (intro rnd_mono_pos) simp_all
    then show ?thesis by (simp add: rnd_minus)
  next
    case 3
    then show ?thesis using rnd_nonneg [of y] rnd_nonpos [of x] by linarith
  qed
qed

lemma ulp_eq:
  assumes "2 powr of_int e \<le> \<bar>x\<bar>" and "\<bar>x\<bar> < 2 powr (of_int e + 1)" and "- 1022 \<le> e"
  shows "ulp x = 2 powr of_int (e - 52)"
proof -
  have "0 < \<bar>x\<bar>" using assms(1) powr_gt_zero [of 2 "of_int e"] by linarith
  then have "\<lfloor>log 2 \<bar>x\<bar>\<rfloor> = e" using assms(1,2) by (simp add: floor_log_eq_powr_iff)
  then show ?thesis using assms(3) by (simp add: ulp_def exponent_def)
qed

lemma fl_eval_neg:
  assumes "2 ^ 52 / 2 ^ k \<le> \<bar>x\<bar>" and "\<bar>x\<bar> < 2 ^ 53 / 2 ^ k" and "k \<le> 1074"
  shows "fl x = overflow (of_int (rne (x * 2 ^ k)) / 2 ^ k)"
proof -
  have p: "(2::real) powr of_int (52 - int k) = 2 ^ 52 / 2 ^ k"
    by (simp add: powr_diff powr_realpow)
  have q: "(2::real) powr (of_int (52 - int k) + 1) = 2 ^ 53 / 2 ^ k"
    by (simp add: powr_diff powr_add powr_realpow)
  have a: "2 powr of_int (52 - int k) \<le> \<bar>x\<bar>" using assms(1) by (simp only: p)
  have b: "\<bar>x\<bar> < 2 powr (of_int (52 - int k) + 1)" using assms(2) by (simp only: q)
  have c: "- 1022 \<le> 52 - int k" using assms(3) by simp
  have "ulp x = 2 powr of_int (52 - int k - 52)" using a b c by (rule ulp_eq)
  then have u: "ulp x = 1 / 2 ^ k" by (simp add: powr_minus powr_realpow divide_inverse)
  have "x / ulp x = x * 2 ^ k" "of_int n * ulp x = of_int n / 2 ^ k" for n :: int
    unfolding u by simp_all
  then show ?thesis by (simp only: fl_def rnd_def)
qed

lemma fl_eval_pos:
  assumes "2 ^ 52 * 2 ^ k \<le> \<bar>x\<bar>" and "\<bar>x\<bar> < 2 ^ 53 * 2 ^ k"
  shows "fl x = overflow (of_int (rne (x / 2 ^ k)) * 2 ^ k)"
proof -
  have p: "(2::real) powr of_int (52 + int k) = 2 ^ 52 * 2 ^ k"
    by (simp add: powr_add powr_realpow)
  have q: "(2::real) powr (of_int (52 + int k) + 1) = 2 ^ 53 * 2 ^ k"
    by (simp add: powr_add powr_realpow)
  have a: "2 powr of_int (52 + int k) \<le> \<bar>x\<bar>" using assms(1) by (simp only: p)
  have b: "\<bar>x\<bar> < 2 powr (of_int (52 + int k) + 1)" using assms(2) by (simp only: q)
  have c: "- 1022 \<le> 52 + int k" by simp
  have "ulp x = 2 powr of_int (52 + int k - 52)" using a b c by (rule ulp_eq)
  then have u: "ulp x = 2 ^ k" by (simp add: powr_realpow)
  show ?thesis by (simp only: fl_def rnd_def u)
qed

lemma fl_eval_sub:
  assumes "\<bar>x\<bar> < 1 / 2 ^ 1022"
  shows "fl x = overflow (of_int (rne (x * 2 ^ 1074)) / 2 ^ 1074)"
proof (cases "x = 0")
  case True
  then show ?thesis by (simp add: fl_def rnd_0 rne_def)
next
  case False
  with assms have u: "ulp x = 1 / 2 ^ 1074" by (rule ulp_subnormal)
  have "x / ulp x = x * 2 ^ 1074" "of_int n * ulp x = of_int n / 2 ^ 1074" for n :: int
    unfolding u by simp_all
  then show ?thesis by (simp only: fl_def rnd_def)
qed

section \<open>Rounded results\<close>

lemma fl_not_NaN: "fl x \<noteq> NaN"
  by (simp add: fl_def overflow_def)

lemma fl_0: "fl 0 = Fin 0"
  by (simp add: fl_def overflow_def rnd_0)

lemma fl_mono: "x \<le> y \<Longrightarrow> number_le (fl x) (fl y)"
  using rnd_mono [of x y] by (simp add: fl_def overflow_def)

lemma fl_finite:
  assumes "\<bar>x\<bar> \<le> 2 ^ 1023"
  shows "fl x = Fin (rnd x)"
proof -
  have "\<bar>rnd x - x\<bar> \<le> \<bar>x\<bar> / 2 ^ 53 + 1 / 2 ^ 1075" by (rule rnd_error_general)
  moreover have "\<bar>x\<bar> / 2 ^ 53 \<le> 2 ^ 1023 / 2 ^ 53" using assms by (intro divide_right_mono) simp_all
  ultimately have "\<bar>rnd x\<bar> \<le> 2 ^ 1023 + 2 ^ 1023 / 2 ^ 53 + 1 / 2 ^ 1075"
    using assms by linarith
  also have "\<dots> < (2 ^ 1024 :: real)" by simp
  finally have "rnd x < 2 ^ 1024" "- (2 ^ 1024) < rnd x" by linarith+
  then show ?thesis by (simp add: fl_def overflow_def)
qed

lemma fl_error:
  assumes "\<bar>x\<bar> \<le> 2 ^ 1023"
  shows "\<exists>v. fl x = Fin v \<and> \<bar>v - x\<bar> \<le> \<bar>x\<bar> / 2 ^ 53 + 1 / 2 ^ 1075"
  using fl_finite [OF assms] rnd_error_general [of x] by blast

lemma fl_error_normal:
  assumes "1 / 2 ^ 1022 \<le> \<bar>x\<bar>" and "\<bar>x\<bar> \<le> 2 ^ 1023"
  shows "\<exists>v. fl x = Fin v \<and> \<bar>v - x\<bar> \<le> \<bar>x\<bar> / 2 ^ 53"
  using fl_finite [OF assms(2)] rnd_error_normal [OF assms(1)] by blast

lemma fl_pos:
  assumes "1 / 2 ^ 1022 \<le> x" and "x \<le> 2 ^ 1023"
  shows "\<exists>v. fl x = Fin v \<and> x * (1 - 1 / 2 ^ 53) \<le> v \<and> v \<le> x * (1 + 1 / 2 ^ 53)"
proof -
  have "(0::real) < 1 / 2 ^ 1022" by simp
  with assms(1) have "0 < x" by linarith
  then have a: "\<bar>x\<bar> = x" by simp
  from fl_error_normal [of x] assms a obtain v where v: "fl x = Fin v" "\<bar>v - x\<bar> \<le> x / 2 ^ 53"
    by auto
  then have "x - x / 2 ^ 53 \<le> v" "v \<le> x + x / 2 ^ 53" by linarith+
  then have "x * (1 - 1 / 2 ^ 53) \<le> v" "v \<le> x * (1 + 1 / 2 ^ 53)"
    by (simp_all add: algebra_simps)
  with v(1) show ?thesis by blast
qed

lemma fl_le_PosInfinity: "number_le (fl x) PosInfinity"
  by (simp add: fl_def overflow_def)

lemma NegInfinity_le_fl: "number_le NegInfinity (fl x)"
  by (simp add: fl_def overflow_def)

lemma plus_mono: "number_le x y \<Longrightarrow> number_le (Fin m + x) (Fin m + y)"
  by (cases x; cases y) (simp_all add: fl_mono fl_le_PosInfinity NegInfinity_le_fl)

section \<open>Evaluations\<close>

text \<open>The roundings of the scenario, one by one.\<close>

lemma fl_scenario_00: "fl 16 = Fin 16"
  using fl_eval_neg [of 48 "16"] by (simp add: rne_def round_def overflow_def)

lemma fl_scenario_01: "fl 18 = Fin 18"
  using fl_eval_neg [of 48 "18"] by (simp add: rne_def round_def overflow_def)

lemma fl_scenario_02: "fl 28 = Fin 28"
  using fl_eval_neg [of 48 "28"] by (simp add: rne_def round_def overflow_def)

lemma fl_scenario_03: "fl 6 = Fin 6"
  using fl_eval_neg [of 50 "6"] by (simp add: rne_def round_def overflow_def)

lemma fl_scenario_04: "fl (14 / 3) = Fin (5254199565265579 / 1125899906842624)"
  using fl_eval_neg [of 50 "14 / 3"] by (simp add: rne_def round_def overflow_def)

lemma fl_scenario_05: "fl 8 = Fin 8"
  using fl_eval_neg [of 49 "8"] by (simp add: rne_def round_def overflow_def)

lemma fl_scenario_06: "fl (4 / 3) = Fin (6004799503160661 / 4503599627370496)"
  using fl_eval_neg [of 52 "4 / 3"] by (simp add: rne_def round_def overflow_def)

lemma fl_scenario_07: "fl (801 / 625) = Fin (1442953320609507 / 1125899906842624)"
  using fl_eval_neg [of 52 "801 / 625"] by (simp add: rne_def round_def overflow_def)

lemma fl_scenario_08: "fl (8664645382679993614117465004127 / 5070602400912917605986812821504) = Fin (480984440203169 / 281474976710656)"
  using fl_eval_neg [of 52 "8664645382679993614117465004127 / 5070602400912917605986812821504"] by (simp add: rne_def round_def overflow_def)

lemma fl_scenario_09: "fl (7178137326078255 / 1125899906842624) = Fin (7178137326078255 / 1125899906842624)"
  using fl_eval_neg [of 50 "7178137326078255 / 1125899906842624"] by (simp add: rne_def round_def overflow_def)

lemma fl_scenario_10: "fl (179453433151956375 / 281474976710656) = Fin (5607919785998637 / 8796093022208)"
  using fl_eval_neg [of 43 "179453433151956375 / 281474976710656"] by (simp add: rne_def round_def overflow_def)

lemma fl_scenario_11: "fl (319 / 50) = Fin (7183241405655941 / 1125899906842624)"
  using fl_eval_neg [of 50 "319 / 50"] by (simp add: rne_def round_def overflow_def)

lemma fl_scenario_12: "fl (131354989131639475 / 281474976710656) = Fin (8209686820727467 / 17592186044416)"
  using fl_eval_neg [of 44 "131354989131639475 / 281474976710656"] by (simp add: rne_def round_def overflow_def)

lemma fl_scenario_13: "fl (467 / 100) = Fin (2628976282477527 / 562949953421312)"
  using fl_eval_neg [of 50 "467 / 100"] by (simp add: rne_def round_def overflow_def)

lemma fl_scenario_14: "fl (150119987579016525 / 1125899906842624) = Fin (2345624805922133 / 17592186044416)"
  using fl_eval_neg [of 45 "150119987579016525 / 1125899906842624"] by (simp add: rne_def round_def overflow_def)

lemma fl_scenario_15: "fl (133 / 100) = Fin (748723438050345 / 562949953421312)"
  using fl_eval_neg [of 52 "133 / 100"] by (simp add: rne_def round_def overflow_def)

lemma fl_scenario_16: "fl (1080372971152911821451151629915 / 633825300114114700748351602688) = Fin (3838255832821289 / 2251799813685248)"
  using fl_eval_neg [of 52 "1080372971152911821451151629915 / 633825300114114700748351602688"] by (simp add: rne_def round_def overflow_def)

lemma fl_scenario_17: "fl (14354160962731397 / 2251799813685248) = Fin (3588540240682849 / 562949953421312)"
  using fl_eval_neg [of 50 "14354160962731397 / 2251799813685248"] by (simp add: rne_def round_def overflow_def)

lemma fl_scenario_18: "fl (89713506017071225 / 140737488355328) = Fin (700886765758369 / 1099511627776)"
  using fl_eval_neg [of 43 "89713506017071225 / 140737488355328"] by (simp add: rne_def round_def overflow_def)

lemma fl_scenario_19: "fl (637 / 100) = Fin (7171982406587515 / 1125899906842624)"
  using fl_eval_neg [of 50 "637 / 100"] by (simp add: rne_def round_def overflow_def)

lemmas fl_scenario = fl_scenario_00 fl_scenario_01 fl_scenario_02 fl_scenario_03 fl_scenario_04 fl_scenario_05 fl_scenario_06 fl_scenario_07 fl_scenario_08 fl_scenario_09 fl_scenario_10 fl_scenario_11 fl_scenario_12 fl_scenario_13 fl_scenario_14 fl_scenario_15 fl_scenario_16 fl_scenario_17 fl_scenario_18 fl_scenario_19

lemma calculate_scenario:
  "calculate scenario =
     \<lparr> media = fl 4.67, sigma_field = fl 1.33,
       valores = \<lparr> P80 = None, P85 = None, P90 = Some (fl 6.38), P95 = None \<rparr> \<rparr>"
  by (simp add: calculate_def scenario_def meanPert_def sigma_def percentile_def round2_def
      round_def fl_scenario)

lemma recomputed_scenario:
  "round2 (media (calculate scenario) + Z_SCORES Pc90 * sigma_field (calculate scenario)) = fl 6.37"
  by (simp add: calculate_scenario percentile_def round2_def round_def fl_scenario)

text \<open>The table.\<close>

lemma fl_Z80: "fl 0.8416 = Fin (7580458892790019 / 9007199254740992)"
  using fl_eval_neg [of 53 "526 / 625"] by (simp add: rne_def round_def overflow_def)

lemma fl_Z85: "fl 1.036 = Fin (2332864606977917 / 2251799813685248)"
  using fl_eval_neg [of 52 "259 / 250"] by (simp add: rne_def round_def overflow_def)

lemma fl_Z90: "fl 1.2816 = Fin (1442953320609507 / 1125899906842624)"
  using fl_eval_neg [of 52 "801 / 625"] by (simp add: rne_def round_def overflow_def)

lemma fl_Z95: "fl 1.6449 = Fin (7407971027061729 / 4503599627370496)"
  using fl_eval_neg [of 52 "16449 / 10000"] by (simp add: rne_def round_def overflow_def)





lemma fl_tenth_00: "fl (1 / 10) = Fin (3602879701896397 / 36028797018963968)"
  using fl_eval_neg [of 56 "1 / 10"] by (simp add: rne_def round_def overflow_def)

lemma fl_tenth_01: "fl (3602879701896397 / 9007199254740992) = Fin (3602879701896397 / 9007199254740992)"
  using fl_eval_neg [of 54 "3602879701896397 / 9007199254740992"] by (simp add: rne_def round_def overflow_def)

lemma fl_tenth_02: "fl (18014398509481985 / 36028797018963968) = Fin (1 / 2)"
  using fl_eval_neg [of 53 "18014398509481985 / 36028797018963968"] by (simp add: rne_def round_def overflow_def)

lemma fl_tenth_03: "fl (21617278211378381 / 36028797018963968) = Fin (5404319552844595 / 9007199254740992)"
  using fl_eval_neg [of 53 "21617278211378381 / 36028797018963968"] by (simp add: rne_def round_def overflow_def)

lemma fl_tenth_04: "fl 6 = Fin 6"
  using fl_eval_neg [of 50 "6"] by (simp add: rne_def round_def overflow_def)

lemma fl_tenth_05: "fl (5404319552844595 / 54043195528445952) = Fin (7205759403792793 / 72057594037927936)"
  using fl_eval_neg [of 56 "5404319552844595 / 54043195528445952"] by (simp add: rne_def round_def overflow_def)

lemmas fl_tenth = fl_tenth_00 fl_tenth_01 fl_tenth_02 fl_tenth_03 fl_tenth_04 fl_tenth_05

lemma fl_extreme_00: "fl (- (1 / 202402253307310618352495346718917307049556649764142118356901358027430339567995346891960383701437124495187077864316811911389808737385793476867013399940738509921517424276566361364466907742093216341239767678472745068562007483424692698618103355649159556340810056512358769552333414615230502532186327508646006263307707741093494784)) = Fin (- (1 / 202402253307310618352495346718917307049556649764142118356901358027430339567995346891960383701437124495187077864316811911389808737385793476867013399940738509921517424276566361364466907742093216341239767678472745068562007483424692698618103355649159556340810056512358769552333414615230502532186327508646006263307707741093494784))"
  using fl_eval_sub [of "- (1 / 202402253307310618352495346718917307049556649764142118356901358027430339567995346891960383701437124495187077864316811911389808737385793476867013399940738509921517424276566361364466907742093216341239767678472745068562007483424692698618103355649159556340810056512358769552333414615230502532186327508646006263307707741093494784)"] by (simp add: rne_def round_def overflow_def)

lemma fl_extreme_01: "fl (- (1 / 1214413519843863710114972080313503842297339898584852710141408148164582037407972081351762302208622746971122467185900871468338852424314760861202080399644431059529104545659398168186801446452559298047438606070836470411372044900548156191708620133894957338044860339074152617314000487691383015193117965051876037579846246446560968704)) = Fin 0"
  using fl_eval_sub [of "- (1 / 1214413519843863710114972080313503842297339898584852710141408148164582037407972081351762302208622746971122467185900871468338852424314760861202080399644431059529104545659398168186801446452559298047438606070836470411372044900548156191708620133894957338044860339074152617314000487691383015193117965051876037579846246446560968704)"] by (simp add: rne_def round_def overflow_def)

lemma fl_extreme_02: "fl 179769313486231590772930519078902473361797697894230657273430081157732675805500963132708477322407536021120113879871393357658789768814416622492847430639474124377767893424865485276302219601246094119453082952085005768838150682342462881473913110540827237163350510684586298239947245938479716304835356329624224137216 = PosInfinity"
  using fl_eval_pos [of 972 "179769313486231590772930519078902473361797697894230657273430081157732675805500963132708477322407536021120113879871393357658789768814416622492847430639474124377767893424865485276302219601246094119453082952085005768838150682342462881473913110540827237163350510684586298239947245938479716304835356329624224137216"] by (simp add: rne_def round_def overflow_def)

lemmas fl_extreme = fl_extreme_00 fl_extreme_01 fl_extreme_02

lemma fl_trip_00: "fl (360290529270353 / 4) = Fin (360290529270353 / 4)"
  using fl_eval_neg [of 6 "360290529270353 / 4"] by (simp add: rne_def round_def overflow_def)

lemma fl_trip_01: "fl 9007263231758825 = Fin 9007263231758824"
  using fl_eval_pos [of 1 "9007263231758825"] by (simp add: rne_def round_def overflow_def)

lemma fl_trip_02: "fl (2251815807939706 / 25) = Fin (5764648468325647 / 64)"
  using fl_eval_neg [of 6 "2251815807939706 / 25"] by (simp add: rne_def round_def overflow_def)

lemma fl_trip_03: "fl (5764648468325647 / 8) = Fin (5764648468325647 / 8)"
  using fl_eval_neg [of 3 "5764648468325647 / 8"] by (simp add: rne_def round_def overflow_def)

lemma fl_trip_04: "fl (144116211708141175 / 2) = Fin 72058105854070592"
  using fl_eval_pos [of 4 "144116211708141175 / 2"] by (simp add: rne_def round_def overflow_def)

lemma fl_trip_05: "fl (18014526463517648 / 25) = Fin (5764648468325647 / 8)"
  using fl_eval_neg [of 3 "18014526463517648 / 25"] by (simp add: rne_def round_def overflow_def)

lemma fl_trip_06: "fl (- (3 / 25)) = Fin (- (1080863910568919 / 9007199254740992))"
  using fl_eval_neg [of 56 "- (3 / 25)"] by (simp add: rne_def round_def overflow_def)

lemma fl_trip_07: "fl (- (25 / 2)) = Fin (- (25 / 2))"
  using fl_eval_neg [of 49 "- (25 / 2)"] by (simp add: rne_def round_def overflow_def)

lemma fl_trip_08: "fl (- (13 / 100)) = Fin (- (1170935903116329 / 9007199254740992))"
  using fl_eval_neg [of 55 "- (13 / 100)"] by (simp add: rne_def round_def overflow_def)

lemmas fl_trip = fl_trip_00 fl_trip_01 fl_trip_02 fl_trip_03 fl_trip_04 fl_trip_05 fl_trip_06 fl_trip_07 fl_trip_08

lemma fl_tie_00: "fl (107 / 40) = Fin (3011782250804019 / 1125899906842624)"
  using fl_eval_neg [of 51 "107 / 40"] by (simp add: rne_def round_def overflow_def)

lemma fl_tie_01: "fl (75294556270100475 / 281474976710656) = Fin (535 / 2)"
  using fl_eval_neg [of 44 "75294556270100475 / 281474976710656"] by (simp add: rne_def round_def overflow_def)

lemma fl_tie_02: "fl (67 / 25) = Fin (6034823500676465 / 2251799813685248)"
  using fl_eval_neg [of 51 "67 / 25"] by (simp add: rne_def round_def overflow_def)

lemma fl_tie_03: "fl (- (25 / 2)) = Fin (- (25 / 2))"
  using fl_eval_neg [of 49 "- (25 / 2)"] by (simp add: rne_def round_def overflow_def)

lemmas fl_tie = fl_tie_00 fl_tie_01 fl_tie_02 fl_tie_03



section \<open>The mean, the deviation and the percentiles\<close>

lemma meanPert_rounded:
  assumes a: "1 / 2 ^ 500 \<le> a" and am: "a \<le> m" and mp: "m \<le> p" and p: "p \<le> 2 ^ 500"
    and l: "1 / 2 ^ 500 \<le> l" "l \<le> 2 ^ 500"
  shows "\<exists>r. meanPert (Fin a) (Fin m) (Fin p) (Some (Fin l)) = Fin r
           \<and> a * (1 - 1 / 2 ^ 50) \<le> r \<and> r \<le> p * (1 + 1 / 2 ^ 50)"
proof -
  have small: "(0::real) < 1 / 2 ^ 500" by simp
  have a0: "0 < a" using a small by linarith
  have l0: "0 < l" using l(1) small by linarith
  define lm where "lm = l * m"
  define al where "al = a * l"
  define lp where "lp = l * p"
  have lm_lo: "1 / 2 ^ 1000 \<le> lm"
  proof -
    have "(1 / 2 ^ 500) * (1 / 2 ^ 500) \<le> l * m"
      using a am l(1) by (intro mult_mono) simp_all
    then show ?thesis by (simp add: lm_def power_add [symmetric])
  qed
  have lp_hi: "lp \<le> 2 ^ 1000"
  proof -
    have "l * p \<le> 2 ^ 500 * 2 ^ 500" using l0 p l(2) a0 am mp by (intro mult_mono) simp_all
    then show ?thesis by (simp add: lp_def power_add [symmetric])
  qed
  have al_lm: "al \<le> lm" unfolding al_def lm_def using am l0 by (simp add: mult.commute)
  have lm_lp: "lm \<le> lp" unfolding lp_def lm_def using mp l0 by simp
  have al0: "0 < al" unfolding al_def using a0 l0 by simp
  have lm0: "0 < lm" using al0 al_lm by simp
  obtain v1 where v1: "fl lm = Fin v1" "lm * (1 - 1 / 2 ^ 53) \<le> v1" "v1 \<le> lm * (1 + 1 / 2 ^ 53)"
  proof -
    have "1 / 2 ^ 1022 \<le> lm" "lm \<le> 2 ^ 1023" using lm_lo lm_lp lp_hi by (simp; linarith)+
    from fl_pos [OF this] that show ?thesis by blast
  qed
  obtain v2 where v2: "fl (a + v1) = Fin v2" "(a + v1) * (1 - 1 / 2 ^ 53) \<le> v2"
    "v2 \<le> (a + v1) * (1 + 1 / 2 ^ 53)"
  proof -
    have "1 / 2 ^ 1022 \<le> a + v1" "a + v1 \<le> 2 ^ 1023"
      using a am mp p lm0 lm_lp lp_hi v1(2,3) by (simp; linarith)+
    from fl_pos [OF this] that show ?thesis by blast
  qed
  obtain v3 where v3: "fl (v2 + p) = Fin v3" "(v2 + p) * (1 - 1 / 2 ^ 53) \<le> v3"
    "v3 \<le> (v2 + p) * (1 + 1 / 2 ^ 53)"
  proof -
    have "1 / 2 ^ 1022 \<le> v2 + p" "v2 + p \<le> 2 ^ 1023"
      using a am mp p lm0 lm_lp lp_hi v1(2,3) v2(2,3) by (simp; linarith)+
    from fl_pos [OF this] that show ?thesis by blast
  qed
  obtain v4 where v4: "fl (l + 2) = Fin v4" "(l + 2) * (1 - 1 / 2 ^ 53) \<le> v4"
    "v4 \<le> (l + 2) * (1 + 1 / 2 ^ 53)"
  proof -
    have "1 / 2 ^ 1022 \<le> l + 2" "l + 2 \<le> 2 ^ 1023"
      using l l0 by (simp; linarith)+
    from fl_pos [OF this] that show ?thesis by blast
  qed
  have v4pos: "0 < v4" using v4(2) l0 by (simp; linarith)
  define av where "av = a * v4"
  define pv where "pv = p * v4"
  have av: "av \<le> (al + 2 * a) * (1 + 1 / 2 ^ 53)"
  proof -
    have "a * v4 \<le> a * ((l + 2) * (1 + 1 / 2 ^ 53))" using v4(3) a0 by (intro mult_left_mono) simp_all
    then show ?thesis by (simp add: av_def al_def algebra_simps)
  qed
  have pv: "(lp + 2 * p) * (1 - 1 / 2 ^ 53) \<le> pv"
  proof -
    have "0 \<le> p" using a0 am mp by simp
    then have "p * ((l + 2) * (1 - 1 / 2 ^ 53)) \<le> p * v4" using v4(2) by (intro mult_left_mono)
    then show ?thesis by (simp add: pv_def lp_def algebra_simps)
  qed
  define c where "c = (1 - 1 / 2 ^ 53) ^ 3 / (1 + 1 / 2 ^ 53) * a"
  define d where "d = (1 + 1 / 2 ^ 53) ^ 3 / (1 - 1 / 2 ^ 53) * p"
  have cv: "c * v4 = (1 - 1 / 2 ^ 53) ^ 3 / (1 + 1 / 2 ^ 53) * av" by (simp add: c_def av_def)
  have dv: "d * v4 = (1 + 1 / 2 ^ 53) ^ 3 / (1 - 1 / 2 ^ 53) * pv" by (simp add: d_def pv_def)
  have "c * v4 \<le> v3"
    unfolding cv using av a0 al0 al_lm am mp v1(2) v2(2) v3(2) by (simp add: power_divide; linarith)
  then have lo: "c \<le> v3 / v4" using v4pos by (simp add: pos_le_divide_eq)
  have "v3 \<le> d * v4"
    unfolding dv using pv a0 lm0 lm_lp am mp v1(3) v2(3) v3(3) by (simp add: power_divide; linarith)
  then have hi: "v3 / v4 \<le> d" using v4pos by (simp add: pos_divide_le_eq)
  obtain v5 where v5: "fl (v3 / v4) = Fin v5" "v3 / v4 * (1 - 1 / 2 ^ 53) \<le> v5"
    "v5 \<le> v3 / v4 * (1 + 1 / 2 ^ 53)"
  proof -
    have "1 / 2 ^ 1022 \<le> c" "d \<le> 2 ^ 1023"
      unfolding c_def d_def using a am mp p by (simp add: power_divide; linarith)+
    with lo hi have "1 / 2 ^ 1022 \<le> v3 / v4" "v3 / v4 \<le> 2 ^ 1023" by linarith+
    from fl_pos [OF this] that show ?thesis by blast
  qed
  have "a * (1 - 1 / 2 ^ 50) \<le> v5"
    using lo v5(2) a0 unfolding c_def by (simp add: power_divide; linarith)
  moreover have "v5 \<le> p * (1 + 1 / 2 ^ 50)"
    using hi v5(3) a0 am mp unfolding d_def by (simp add: power_divide; linarith)
  moreover have "meanPert (Fin a) (Fin m) (Fin p) (Some (Fin l)) = Fin v5"
    using v4pos by (simp add: meanPert_def lm_def [symmetric] v1(1) v2(1) v3(1) v4(1) v5(1))
  ultimately show ?thesis by blast
qed

text \<open>
  C5, as the code has it: for \<open>O \<le> M \<le> P\<close> and \<open>lambda\<close>, all between \<open>2 ^ -500\<close> and
  \<open>2 ^ 500\<close>, the mean is finite and lies between \<open>O\<close> and \<open>P\<close> up to the rounding of
  the five operations: not below \<open>O * (1 - 2 ^ -50)\<close> and not above
  \<open>P * (1 + 2 ^ -50)\<close>.
\<close>

theorem meanPert_within:
  assumes "1 / 2 ^ 500 \<le> a" and "a \<le> m" and "m \<le> p" and "p \<le> 2 ^ 500"
    and "1 / 2 ^ 500 \<le> l" and "l \<le> 2 ^ 500"
  shows "\<exists>r. meanPert (Fin a) (Fin m) (Fin p) (Some (Fin l)) = Fin r
           \<and> a * (1 - 1 / 2 ^ 50) \<le> r \<and> r \<le> p * (1 + 1 / 2 ^ 50)"
  using assms by (rule meanPert_rounded)

theorem meanPert_within_witness:
  "\<exists>r. meanPert (Fin 2) (Fin 4) (Fin 10) (Some (Fin 4)) = Fin r
           \<and> 2 * (1 - 1 / 2 ^ 50) \<le> r \<and> r \<le> 10 * (1 + 1 / 2 ^ 50)"
  by (rule meanPert_within) simp_all

text \<open>
  The claim C5 as it is written fails at \<open>O = M = P = 0.1\<close>, \<open>lambda = 4\<close>: the code
  returns \<open>0.09999999999999999\<close>, the value of the format just below \<open>O\<close>.
\<close>

theorem meanPert_within_counterexample:
  "number_le (fl 0.1) (fl 0.1)
   \<and> number_less (meanPert (fl 0.1) (fl 0.1) (fl 0.1) (Some (Fin 4))) (fl 0.1)"
  by (simp add: meanPert_def fl_tenth)




text \<open>
  C3, as the code has it: for all \<open>O\<close> and \<open>P\<close>, with no condition on their order,
  \<open>sigma\<close> returns \<open>(P - O) / 6\<close> computed in the arithmetic of numbers. When \<open>P < O\<close>
  the result is not positive: reversed arguments are neither rejected nor corrected.
  When \<open>P - O\<close> is between \<open>2 ^ -1000\<close> and \<open>2 ^ 1000\<close> in magnitude the result is
  finite, within the relative error \<open>2 ^ -51\<close> of the exact quotient, and negative
  exactly when \<open>P < O\<close>.
\<close>

theorem sigma_exact:
  "sigma Ov P = (P - Ov) / Fin 6
   \<and> (p < a \<longrightarrow> number_le (sigma (Fin a) (Fin p)) (Fin 0))
   \<and> (1 / 2 ^ 1000 \<le> \<bar>p - a\<bar> \<and> \<bar>p - a\<bar> \<le> 2 ^ 1000 \<longrightarrow>
        (\<exists>s. sigma (Fin a) (Fin p) = Fin s
           \<and> \<bar>s - (p - a) / 6\<bar> \<le> \<bar>(p - a) / 6\<bar> / 2 ^ 51
           \<and> (s < 0) = (p < a)))"
proof (intro conjI impI)
  show "sigma Ov P = (P - Ov) / Fin 6" by (simp add: sigma_def)
next
  assume "p < a"
  then have "number_le (fl (p - a)) (fl 0)" by (intro fl_mono) simp
  then show "number_le (sigma (Fin a) (Fin p)) (Fin 0)"
  proof (cases "fl (p - a)")
    case (Fin d)
    with \<open>number_le (fl (p - a)) (fl 0)\<close> have "d / 6 \<le> 0" by (simp add: fl_0)
    then have "number_le (fl (d / 6)) (fl 0)" by (rule fl_mono)
    with Fin show ?thesis by (simp add: sigma_def fl_0)
  qed (simp_all add: sigma_def fl_0 fl_not_NaN)
next
  assume h: "1 / 2 ^ 1000 \<le> \<bar>p - a\<bar> \<and> \<bar>p - a\<bar> \<le> 2 ^ 1000"
  define x where "x = p - a"
  have x: "1 / 2 ^ 1000 \<le> \<bar>x\<bar>" "\<bar>x\<bar> \<le> 2 ^ 1000" using h by (simp_all add: x_def)
  obtain d where d: "fl x = Fin d" "\<bar>d - x\<bar> \<le> \<bar>x\<bar> / 2 ^ 53"
  proof -
    have "1 / 2 ^ 1022 \<le> \<bar>x\<bar>" "\<bar>x\<bar> \<le> 2 ^ 1023" using x by (simp; linarith)+
    from fl_error_normal [OF this] that show ?thesis by blast
  qed
  define A where "A = \<bar>x\<bar>"
  define D where "D = \<bar>d\<bar>"
  define E where "E = \<bar>d - x\<bar>"
  have tri: "A - E \<le> D" "D \<le> A + E" unfolding A_def D_def E_def by linarith+
  have AE: "1 / 2 ^ 1000 \<le> A" "A \<le> 2 ^ 1000" "E \<le> A / 2 ^ 53"
    using x d(2) by (simp_all add: A_def E_def)
  have D6: "\<bar>d / 6\<bar> = D / 6" by (simp add: D_def)
  obtain s where s: "fl (d / 6) = Fin s" "\<bar>s - d / 6\<bar> \<le> \<bar>d / 6\<bar> / 2 ^ 53"
  proof -
    have "1 / 2 ^ 1022 \<le> D / 6" "D / 6 \<le> 2 ^ 1023" using tri AE by (simp; linarith)+
    then have "1 / 2 ^ 1022 \<le> \<bar>d / 6\<bar>" "\<bar>d / 6\<bar> \<le> 2 ^ 1023" by (simp_all only: D6)
    from fl_error_normal [OF this] that show ?thesis by blast
  qed
  define G where "G = \<bar>s - d / 6\<bar>"
  have G: "G \<le> D / 6 / 2 ^ 53" using s(2) by (simp only: G_def D6)
  have "s - x / 6 = (s - d / 6) + (d - x) / 6" by (simp add: field_simps)
  then have "\<bar>s - x / 6\<bar> \<le> \<bar>s - d / 6\<bar> + \<bar>(d - x) / 6\<bar>"
    by (simp only: abs_triangle_ineq)
  then have "\<bar>s - x / 6\<bar> \<le> G + E / 6" by (simp add: G_def E_def)
  moreover have "G + E / 6 \<le> A / 6 / 2 ^ 51" using G tri AE by (simp; linarith)
  ultimately have e': "\<bar>s - x / 6\<bar> \<le> A / 6 / 2 ^ 51" by linarith
  then have e: "\<bar>s - x / 6\<bar> \<le> \<bar>x / 6\<bar> / 2 ^ 51" by (simp add: A_def)
  have "A / 6 / 2 ^ 51 < A / 6" using AE(1) by (simp; linarith)
  with e' have "\<bar>s - x / 6\<bar> < \<bar>x\<bar> / 6" by (simp add: A_def)
  then have sg: "(s < 0) = (x < 0)" by linarith
  have sig: "sigma (Fin a) (Fin p) = Fin s" by (simp add: sigma_def x_def [symmetric] d(1) s(1))
  from e sg sig show "\<exists>s. sigma (Fin a) (Fin p) = Fin s
           \<and> \<bar>s - (p - a) / 6\<bar> \<le> \<bar>(p - a) / 6\<bar> / 2 ^ 51 \<and> (s < 0) = (p < a)"
    unfolding x_def by (intro exI [of _ s]) simp
qed

theorem sigma_exact_witness:
  "number_le (sigma (Fin 10) (Fin 2)) (Fin 0)
   \<and> (\<exists>s. sigma (Fin 10) (Fin 2) = Fin s
           \<and> \<bar>s - (2 - 10) / 6\<bar> \<le> \<bar>(2 - 10) / 6\<bar> / 2 ^ 51 \<and> (s < 0) = ((2::real) < 10))"
proof -
  have h: "(1 / 2 ^ 1000 :: real) \<le> \<bar>2 - 10\<bar> \<and> \<bar>2 - 10 :: real\<bar> \<le> 2 ^ 1000" by simp
  have "(2 :: real) < 10" by simp
  with sigma_exact [of _ _ 2 10] h show ?thesis by blast
qed

text \<open>
  The claim C3 as it is written fails at \<open>O = 2 ^ -1074\<close>, \<open>P = 0\<close>, where \<open>P < O\<close>
  and the quotient underflows to zero, and at \<open>O = -2 ^ 1023\<close>, \<open>P = 2 ^ 1023\<close>, where
  the difference overflows although \<open>(P - O) / 6\<close> is in the range of the format.
\<close>

theorem sigma_counterexample:
  "sigma (Fin (1 / 2 ^ 1074)) (Fin 0) = Fin 0
   \<and> \<not> number_less (sigma (Fin (1 / 2 ^ 1074)) (Fin 0)) (Fin 0)
   \<and> sigma (Fin (- (2 ^ 1023))) (Fin (2 ^ 1023)) = PosInfinity"
  by (simp add: sigma_def fl_extreme)

lemma times_mono:
  assumes "0 \<le> s" and "a \<le> b"
  shows "number_le (Fin a * Fin s) (Fin b * Fin s)"
  using assms by (simp add: fl_mono mult_right_mono)

text \<open>
  C6: for a fixed finite mean and a finite deviation \<open>sigma \<ge> 0\<close>, the percentiles
  grow with the z-score: P80 \<open>\<le>\<close> P85 \<open>\<le>\<close> P90 \<open>\<le>\<close> P95. Rounding keeps the order,
  and so does an overflow to infinity.
\<close>

theorem percentile_monotone:
  assumes "0 \<le> s"
  shows "number_le (percentile (Fin m) (Fin s) Pc80) (percentile (Fin m) (Fin s) Pc85)
       \<and> number_le (percentile (Fin m) (Fin s) Pc85) (percentile (Fin m) (Fin s) Pc90)
       \<and> number_le (percentile (Fin m) (Fin s) Pc90) (percentile (Fin m) (Fin s) Pc95)"
  unfolding percentile_def Z_SCORES.simps fl_Z80 fl_Z85 fl_Z90 fl_Z95
  by (intro conjI plus_mono times_mono assms) simp_all

theorem percentile_monotone_witness:
  "(0 :: real) \<le> 2
   \<and> number_le (percentile (Fin 5) (Fin 2) Pc80) (percentile (Fin 5) (Fin 2) Pc85)
   \<and> number_le (percentile (Fin 5) (Fin 2) Pc85) (percentile (Fin 5) (Fin 2) Pc90)
   \<and> number_le (percentile (Fin 5) (Fin 2) Pc90) (percentile (Fin 5) (Fin 2) Pc95)"
proof -
  have h: "(0 :: real) \<le> 2" by simp
  from percentile_monotone [OF h, of 5] h show ?thesis by blast
qed

text \<open>
  C4: for every mean, every deviation and each of the four percentiles, \<open>percentile\<close>
  returns \<open>mean + z * sigma\<close>, where \<open>z\<close> is the entry of the fixed table: 0.8416 for
  80, 1.036 for 85, 1.2816 for 90 and 1.6449 for 95.
\<close>

theorem percentile_table:
  "percentile mean sg p = mean + Z_SCORES p * sg
   \<and> Z_SCORES Pc80 = fl 0.8416 \<and> Z_SCORES Pc85 = fl 1.036
   \<and> Z_SCORES Pc90 = fl 1.2816 \<and> Z_SCORES Pc95 = fl 1.6449
   \<and> percentile (Fin m) (Fin s) Pc80 = Fin m + fl 0.8416 * Fin s
   \<and> percentile (Fin m) (Fin s) Pc85 = Fin m + fl 1.036 * Fin s
   \<and> percentile (Fin m) (Fin s) Pc90 = Fin m + fl 1.2816 * Fin s
   \<and> percentile (Fin m) (Fin s) Pc95 = Fin m + fl 1.6449 * Fin s"
  by (simp add: percentile_def)

section \<open>Rounding and the unit conversions\<close>

lemma fl_abs:
  assumes "\<bar>x\<bar> \<le> B" and "1 \<le> B" and "B \<le> 2 ^ 1023"
  shows "\<exists>v. fl x = Fin v \<and> x - B / 2 ^ 52 \<le> v \<and> v \<le> x + B / 2 ^ 52"
proof -
  have "\<bar>x\<bar> \<le> 2 ^ 1023" using assms by linarith
  from fl_error [OF this] obtain v where v: "fl x = Fin v" "\<bar>v - x\<bar> \<le> \<bar>x\<bar> / 2 ^ 53 + 1 / 2 ^ 1075"
    by blast
  have "\<bar>x\<bar> / 2 ^ 53 \<le> B / 2 ^ 53" using assms(1) by (intro divide_right_mono) simp_all
  moreover have "(1 / 2 ^ 1075 :: real) \<le> 1 / 2 ^ 53" by simp
  moreover have "1 / 2 ^ 53 \<le> B / 2 ^ 53" using assms(2) by (intro divide_right_mono) simp_all
  moreover have "B / 2 ^ 53 + B / 2 ^ 53 = B / 2 ^ 52" by simp
  ultimately have "\<bar>v - x\<bar> \<le> B / 2 ^ 52" using v(2) by linarith
  then have "x - B / 2 ^ 52 \<le> v" "v \<le> x + B / 2 ^ 52" by linarith+
  with v(1) show ?thesis by blast
qed

lemma round_near:
  fixes y :: real
  shows "y - 1 / 2 \<le> of_int (round y)" and "of_int (round y) \<le> y + 1 / 2"
  using of_int_round_ge [of y] of_int_round_le [of y] by simp_all





text \<open>
  The literal \<open>2.675\<close> denotes a value below the tie, and the product with \<open>100\<close>
  rounds to the tie \<open>267.5\<close>: the code returns \<open>2.68\<close>.
\<close>

lemma round2_below_tie:
  "fl 2.675 = Fin (3011782250804019 / 1125899906842624)" "3011782250804019 / 1125899906842624 < (2.675 :: real)" "round2 (fl 2.675) = fl 2.68"
  by (simp_all add: round2_def round_def fl_tie)

text \<open>
  C8, as the code has it: for every number of hours \<open>h\<close> with \<open>\<bar>h\<bar> \<le> 2 ^ 40\<close>,
  converting to days and back gives a finite value at most \<open>0.0625\<close> away from \<open>h\<close>.
\<close>

theorem round_trip:
  assumes "\<bar>h\<bar> \<le> 2 ^ 40"
  shows "\<exists>r. diasParaHoras (horasParaDias (Fin h)) = Fin r \<and> \<bar>r - h\<bar> \<le> 0.0625"
proof -
  have h: "- (2 ^ 40) \<le> h" "h \<le> 2 ^ 40" using assms by linarith+
  obtain a where a: "fl (h / 8) = Fin a"
    "h / 8 - 2 ^ 37 / 2 ^ 52 \<le> a" "a \<le> h / 8 + 2 ^ 37 / 2 ^ 52"
  proof -
    have "\<bar>h / 8\<bar> \<le> 2 ^ 37" using assms by (simp; linarith)
    from fl_abs [OF this] that show ?thesis by auto
  qed
  obtain b where b: "fl (a * 100) = Fin b"
    "a * 100 - 2 ^ 45 / 2 ^ 52 \<le> b" "b \<le> a * 100 + 2 ^ 45 / 2 ^ 52"
  proof -
    have "- (2 ^ 45) \<le> a * 100" "a * 100 \<le> 2 ^ 45" using h a(2,3) by (simp; linarith)+
    then have "\<bar>a * 100\<bar> \<le> 2 ^ 45" by (simp only: abs_le_iff) simp
    from fl_abs [OF this] that show ?thesis by auto
  qed
  define k where "k = round b"
  define n where "n = real_of_int k"
  have n: "b - 1 / 2 \<le> n" "n \<le> b + 1 / 2" unfolding n_def k_def by (rule round_near)+
  obtain c where c: "fl (n / 100) = Fin c"
    "n / 100 - 2 ^ 38 / 2 ^ 52 \<le> c" "c \<le> n / 100 + 2 ^ 38 / 2 ^ 52"
  proof -
    have "- (2 ^ 38) \<le> n / 100" "n / 100 \<le> 2 ^ 38" using h a(2,3) b(2,3) n by (simp; linarith)+
    then have "\<bar>n / 100\<bar> \<le> 2 ^ 38" by (simp only: abs_le_iff) simp
    from fl_abs [OF this] that show ?thesis by auto
  qed
  have days: "horasParaDias (Fin h) = Fin c"
    by (simp add: horasParaDias_def round2_def a(1) b(1) k_def [symmetric] n_def [symmetric] c(1))
  obtain d where d: "fl (c * 8) = Fin d"
    "c * 8 - 2 ^ 42 / 2 ^ 52 \<le> d" "d \<le> c * 8 + 2 ^ 42 / 2 ^ 52"
  proof -
    have "- (2 ^ 42) \<le> c * 8" "c * 8 \<le> 2 ^ 42" using h a(2,3) b(2,3) n c(2,3) by (simp; linarith)+
    then have "\<bar>c * 8\<bar> \<le> 2 ^ 42" by (simp only: abs_le_iff) simp
    from fl_abs [OF this] that show ?thesis by auto
  qed
  obtain e where e: "fl (d * 100) = Fin e"
    "d * 100 - 2 ^ 49 / 2 ^ 52 \<le> e" "e \<le> d * 100 + 2 ^ 49 / 2 ^ 52"
  proof -
    have "- (2 ^ 49) \<le> d * 100" "d * 100 \<le> 2 ^ 49"
      using h a(2,3) b(2,3) n c(2,3) d(2,3) by (simp; linarith)+
    then have "\<bar>d * 100\<bar> \<le> 2 ^ 49" by (simp only: abs_le_iff) simp
    from fl_abs [OF this] that show ?thesis by auto
  qed
  have "e - 8 * n < 1 / 2" "- (1 / 2) < e - 8 * n"
    using c(2,3) d(2,3) e(2,3) by (simp; linarith)+
  then have "\<bar>e - 8 * n\<bar> < 1 / 2" by linarith
  then have "\<bar>e - of_int (8 * k)\<bar> < 1 / 2" by (simp add: n_def)
  then have rb: "round e = 8 * k" by (rule round_unique')
  obtain r where r: "fl (8 * n / 100) = Fin r"
    "8 * n / 100 - 2 ^ 42 / 2 ^ 52 \<le> r" "r \<le> 8 * n / 100 + 2 ^ 42 / 2 ^ 52"
  proof -
    have "- (2 ^ 42) \<le> 8 * n / 100" "8 * n / 100 \<le> 2 ^ 42"
      using h a(2,3) b(2,3) n by (simp; linarith)+
    then have "\<bar>8 * n / 100\<bar> \<le> 2 ^ 42" by (simp only: abs_le_iff) simp
    from fl_abs [OF this] that show ?thesis by auto
  qed
  have hours: "diasParaHoras (Fin c) = Fin r"
    using r(1) by (simp add: diasParaHoras_def round2_def d(1) e(1) rb n_def)
  have "r - h \<le> 0.0625" "- 0.0625 \<le> r - h"
    using a(2,3) b(2,3) n r(2,3) by (simp; linarith)+
  then have "\<bar>r - h\<bar> \<le> 0.0625" by (simp only: abs_le_iff) simp
  with days hours show ?thesis by simp
qed

theorem round_trip_witness:
  "\<exists>r. diasParaHoras (horasParaDias (Fin 40)) = Fin r \<and> \<bar>r - 40\<bar> \<le> 0.0625"
  by (rule round_trip) simp

text \<open>
  The claim C8 as it is written fails at \<open>h = 720581058540706\<close>: the code returns
  \<open>720581058540705.875\<close>, which is \<open>0.125\<close> away.
\<close>

theorem round_trip_counterexample:
  "diasParaHoras (horasParaDias (Fin 720581058540706)) = Fin 720581058540705.875
   \<and> \<not> \<bar>720581058540705.875 - 720581058540706\<bar> \<le> (0.0625 :: real)"
  by (simp add: diasParaHoras_def horasParaDias_def round2_def round_def fl_trip)

section \<open>The calculation\<close>

lemma calculate_fields:
  "media (calculate x) =
     round2 (meanPert (input_O x) (input_M x) (input_P x)
               (Some (case lambda x of None \<Rightarrow> Fin 4 | Some l \<Rightarrow> l)))"
  "sigma_field (calculate x) = round2 (sigma (input_O x) (input_P x))"
  "P80 (valores (calculate x)) =
     (if Pc80 \<in> set (percentis x)
      then Some (round2 (percentile
             (meanPert (input_O x) (input_M x) (input_P x)
                (Some (case lambda x of None \<Rightarrow> Fin 4 | Some l \<Rightarrow> l)))
             (sigma (input_O x) (input_P x)) Pc80))
      else None)"
  "P85 (valores (calculate x)) =
     (if Pc85 \<in> set (percentis x)
      then Some (round2 (percentile
             (meanPert (input_O x) (input_M x) (input_P x)
                (Some (case lambda x of None \<Rightarrow> Fin 4 | Some l \<Rightarrow> l)))
             (sigma (input_O x) (input_P x)) Pc85))
      else None)"
  "P90 (valores (calculate x)) =
     (if Pc90 \<in> set (percentis x)
      then Some (round2 (percentile
             (meanPert (input_O x) (input_M x) (input_P x)
                (Some (case lambda x of None \<Rightarrow> Fin 4 | Some l \<Rightarrow> l)))
             (sigma (input_O x) (input_P x)) Pc90))
      else None)"
  "P95 (valores (calculate x)) =
     (if Pc95 \<in> set (percentis x)
      then Some (round2 (percentile
             (meanPert (input_O x) (input_M x) (input_P x)
                (Some (case lambda x of None \<Rightarrow> Fin 4 | Some l \<Rightarrow> l)))
             (sigma (input_O x) (input_P x)) Pc95))
      else None)"
  by (simp_all add: calculate_def Let_def)

lemma requested_iff:
  "(\<exists>v. (if c then Some (round2 a) else None) = Some (round2 v)) = c"
  by auto

lemma absent_iff: "((if c then Some a else None) = None) = (\<not> c)"
  by simp

text \<open>
  C1: for every input, each of the fields P80, P85, P90 and P95 of the result holds a
  rounded value if and only if its percentile is in the list \<open>percentis\<close> of the input,
  and is undefined otherwise; \<open>media\<close> and \<open>sigma\<close> are \<open>round2\<close> of the mean and of the
  deviation computed from the input, with \<open>lambda = 4\<close> when the input leaves it out.
\<close>

theorem calculate_result:
  "((\<exists>v. P80 (valores (calculate x)) = Some (round2 v)) = (Pc80 \<in> set (percentis x)))
   \<and> ((P80 (valores (calculate x)) = None) = (Pc80 \<notin> set (percentis x)))
   \<and> ((\<exists>v. P85 (valores (calculate x)) = Some (round2 v)) = (Pc85 \<in> set (percentis x)))
   \<and> ((P85 (valores (calculate x)) = None) = (Pc85 \<notin> set (percentis x)))
   \<and> ((\<exists>v. P90 (valores (calculate x)) = Some (round2 v)) = (Pc90 \<in> set (percentis x)))
   \<and> ((P90 (valores (calculate x)) = None) = (Pc90 \<notin> set (percentis x)))
   \<and> ((\<exists>v. P95 (valores (calculate x)) = Some (round2 v)) = (Pc95 \<in> set (percentis x)))
   \<and> ((P95 (valores (calculate x)) = None) = (Pc95 \<notin> set (percentis x)))
   \<and> media (calculate x) =
       round2 (meanPert (input_O x) (input_M x) (input_P x)
                 (Some (case lambda x of None \<Rightarrow> Fin 4 | Some l \<Rightarrow> l)))
   \<and> sigma_field (calculate x) = round2 (sigma (input_O x) (input_P x))"
  by (simp only: calculate_fields requested_iff absent_iff simp_thms)

text \<open>
  C10: each percentile of the result is \<open>round2\<close> of \<open>mean + z * sigma\<close> taken on the
  unrounded mean and the unrounded deviation, and there is an input whose P90 differs
  from the value recomputed from the rounded \<open>media\<close> and \<open>sigma\<close> of the same result
  (the scenario above: the values nearest to \<open>6.38\<close> and to \<open>6.37\<close>).
\<close>

theorem percentiles_from_unrounded:
  "P80 (valores (calculate x)) =
     (if Pc80 \<in> set (percentis x)
      then Some (round2
             (meanPert (input_O x) (input_M x) (input_P x)
                (Some (case lambda x of None \<Rightarrow> Fin 4 | Some l \<Rightarrow> l))
              + Z_SCORES Pc80 * sigma (input_O x) (input_P x)))
      else None)
   \<and> P85 (valores (calculate x)) =
     (if Pc85 \<in> set (percentis x)
      then Some (round2
             (meanPert (input_O x) (input_M x) (input_P x)
                (Some (case lambda x of None \<Rightarrow> Fin 4 | Some l \<Rightarrow> l))
              + Z_SCORES Pc85 * sigma (input_O x) (input_P x)))
      else None)
   \<and> P90 (valores (calculate x)) =
     (if Pc90 \<in> set (percentis x)
      then Some (round2
             (meanPert (input_O x) (input_M x) (input_P x)
                (Some (case lambda x of None \<Rightarrow> Fin 4 | Some l \<Rightarrow> l))
              + Z_SCORES Pc90 * sigma (input_O x) (input_P x)))
      else None)
   \<and> P95 (valores (calculate x)) =
     (if Pc95 \<in> set (percentis x)
      then Some (round2
             (meanPert (input_O x) (input_M x) (input_P x)
                (Some (case lambda x of None \<Rightarrow> Fin 4 | Some l \<Rightarrow> l))
              + Z_SCORES Pc95 * sigma (input_O x) (input_P x)))
      else None)
   \<and> (\<exists>y v. P90 (valores (calculate y)) = Some v
          \<and> v \<noteq> round2 (media (calculate y) + Z_SCORES Pc90 * sigma_field (calculate y)))"
proof -
  have "P90 (valores (calculate scenario)) = Some (fl 6.38)"
    by (simp add: calculate_scenario)
  moreover have "fl 6.38 \<noteq>
      round2 (media (calculate scenario) + Z_SCORES Pc90 * sigma_field (calculate scenario))"
    by (simp only: recomputed_scenario) (simp add: fl_scenario)
  ultimately have "\<exists>y v. P90 (valores (calculate y)) = Some v
          \<and> v \<noteq> round2 (media (calculate y) + Z_SCORES Pc90 * sigma_field (calculate y))"
    by blast
  then show ?thesis
    by (simp only: calculate_fields percentile_def)
qed

end
